theory Spec2Isabelle
  imports Complex_Main "HOL-Library.Multiset"
begin

section \<open>Values and errors\<close>

text \<open>
  The dashboard computes on float64 values (pandas columns, numpy arrays, Python floats).
  A finite float is idealised as a real number: rounding, overflow and underflow are not
  modelled. The special values are kept, because the code depends on them:
  \<^verbatim>\<open>pct_change\<close> divides by the previous close (a zero close gives an infinity or NaN) and
  \<^verbatim>\<open>dropna\<close> removes exactly the NaN entries.
\<close>

datatype fl = Fin real | PInf | NInf | NaN

text \<open>Python and numpy exceptions that the modelled lines can raise.\<close>

datatype py_error = ValueError | IndexError | KeyError | ConnectionError

fun fl_neg :: "fl \<Rightarrow> fl" where
  "fl_neg (Fin a) = Fin (- a)"
| "fl_neg PInf = NInf"
| "fl_neg NInf = PInf"
| "fl_neg NaN = NaN"

fun fl_add :: "fl \<Rightarrow> fl \<Rightarrow> fl" where
  "fl_add NaN _ = NaN"
| "fl_add _ NaN = NaN"
| "fl_add (Fin a) (Fin b) = Fin (a + b)"
| "fl_add PInf NInf = NaN"
| "fl_add NInf PInf = NaN"
| "fl_add PInf _ = PInf"
| "fl_add _ PInf = PInf"
| "fl_add NInf _ = NInf"
| "fl_add _ NInf = NInf"

definition fl_sub :: "fl \<Rightarrow> fl \<Rightarrow> fl" where
  "fl_sub x y = fl_add x (fl_neg y)"

text \<open>The sign of a value that is not NaN: \<open>-1\<close>, \<open>0\<close> or \<open>1\<close>.\<close>

fun fl_sign :: "fl \<Rightarrow> int" where
  "fl_sign (Fin a) = (if a < 0 then -1 else if a = 0 then 0 else 1)"
| "fl_sign PInf = 1"
| "fl_sign NInf = -1"
| "fl_sign NaN = 0"

definition inf_of_sign :: "int \<Rightarrow> fl" where
  "inf_of_sign s = (if s = 0 then NaN else if 0 < s then PInf else NInf)"

fun fl_mul :: "fl \<Rightarrow> fl \<Rightarrow> fl" where
  "fl_mul NaN _ = NaN"
| "fl_mul _ NaN = NaN"
| "fl_mul (Fin a) (Fin b) = Fin (a * b)"
| "fl_mul x y = inf_of_sign (fl_sign x * fl_sign y)"

text \<open>
  Division of two finite values, as numpy does it on float64 with errors ignored:
  \<open>0 / 0\<close> is NaN, \<open>a / 0\<close> is an infinity with the sign of \<open>a\<close>.
\<close>

definition fin_div :: "real \<Rightarrow> real \<Rightarrow> fl" where
  "fin_div a b =
     (if b = 0 then (if a = 0 then NaN else if 0 < a then PInf else NInf)
      else Fin (a / b))"


text \<open>
  Positional indexing \<^verbatim>\<open>xs.iloc[i]\<close> (and \<^verbatim>\<open>xs[i]\<close> on a Python list): a negative index
  counts from the end, an index out of range raises IndexError.
\<close>

definition iloc :: "'a list \<Rightarrow> int \<Rightarrow> py_error + 'a" where
  "iloc xs i =
     (if 0 \<le> i then (if i < int (length xs) then Inr (xs ! nat i) else Inl IndexError)
      else (if - i \<le> int (length xs) then Inr (xs ! nat (int (length xs) + i))
            else Inl IndexError))"

section \<open>Tab 4: return sample and Monte Carlo simulation\<close>

text \<open>
  \<^verbatim>\<open>returns = filtered_data['Close'].pct_change().dropna()\<close>

  The closes are finite values (the data provider drops rows without prices).
  \<^verbatim>\<open>pct_change\<close> gives NaN for the first row and \<open>cur / prev - 1\<close> for every later row;
  \<^verbatim>\<open>dropna\<close> keeps the entries that are not NaN. Neither call raises.
\<close>

fun pct_change :: "real list \<Rightarrow> fl list" where
  "pct_change [] = []"
| "pct_change (x # xs) =
     NaN # map (\<lambda>(prev, cur). fl_sub (fin_div cur prev) (Fin 1)) (zip (x # xs) xs)"

definition dropna :: "fl list \<Rightarrow> fl list" where
  "dropna vs = filter (\<lambda>v. v \<noteq> NaN) vs"

definition sample_returns :: "real list \<Rightarrow> py_error + fl list" where
  "sample_returns closes = Inr (dropna (pct_change closes))"

text \<open>
  \<^verbatim>\<open>np.random.choice(returns)\<close> raises ValueError on an empty sample and otherwise
  returns one of its elements. The random source is an infinite sequence of raw draws
  \<open>g 0, g 1, ...\<close>; the draw \<open>u\<close> selects the element at position \<open>u mod length a\<close>, so every
  element can be selected and nothing else can.
\<close>

type_synonym rng = "nat \<Rightarrow> nat"

definition choice :: "fl list \<Rightarrow> nat \<Rightarrow> py_error + fl" where
  "choice a u = (if a = [] then Inl ValueError else Inr (a ! (u mod length a)))"

text \<open>
  The inner loop
  \<^verbatim>\<open>for _ in range(time_horizon - 1): prices.append(prices[-1] * (1 + np.random.choice(returns)))\<close>
  with \<open>n\<close> iterations left, \<open>k\<close> draws consumed so far.
\<close>

fun extend_prices :: "fl list \<Rightarrow> rng \<Rightarrow> nat \<Rightarrow> nat \<Rightarrow> fl list \<Rightarrow> py_error + (fl list \<times> nat)" where
  "extend_prices returns g 0 k prices = Inr (prices, k)"
| "extend_prices returns g (Suc n) k prices =
     (case choice returns (g k) of
        Inl e \<Rightarrow> Inl e
      | Inr r \<Rightarrow>
          (case iloc prices (- 1) of
             Inl e \<Rightarrow> Inl e
           | Inr p \<Rightarrow> extend_prices returns g n (Suc k) (prices @ [fl_mul p (fl_add (Fin 1) r)])))"

text \<open>
  \<^verbatim>\<open>simulations = np.zeros((time_horizon, num_simulations))\<close>: the array is kept as the
  list of its columns (\<^verbatim>\<open>simulations[:, i]\<close> is the \<open>i\<close>-th path), each of
  \<open>time_horizon\<close> zeros. A negative dimension raises ValueError.
\<close>

definition np_zeros :: "int \<Rightarrow> int \<Rightarrow> py_error + fl list list" where
  "np_zeros rows cols =
     (if rows < 0 \<or> cols < 0 then Inl ValueError
      else Inr (replicate (nat cols) (replicate (nat rows) (Fin 0))))"

text \<open>
  \<^verbatim>\<open>simulations[:, i] = prices\<close>: a column index out of range raises IndexError; the
  list must have the length of the column, or length one (numpy broadcasts a single value
  over the column), otherwise ValueError.
\<close>

definition set_column :: "fl list list \<Rightarrow> nat \<Rightarrow> nat \<Rightarrow> fl list \<Rightarrow> py_error + fl list list" where
  "set_column sims rows i prices =
     (if length sims \<le> i then Inl IndexError
      else if length prices = rows then Inr (sims[i := prices])
      else if length prices = 1 then Inr (sims[i := replicate rows (prices ! 0)])
      else Inl ValueError)"

text \<open>
  The outer loop \<^verbatim>\<open>for i in range(num_simulations)\<close> over the remaining column indices,
  threading the array and the number of draws consumed.
\<close>

fun run_paths ::
  "fl list \<Rightarrow> rng \<Rightarrow> int \<Rightarrow> fl \<Rightarrow> nat list \<Rightarrow> fl list list \<Rightarrow> nat \<Rightarrow> py_error + (fl list list \<times> nat)" where
  "run_paths returns g time_horizon last_price [] sims k = Inr (sims, k)"
| "run_paths returns g time_horizon last_price (i # is) sims k =
     (case extend_prices returns g (nat (time_horizon - 1)) k [last_price] of
        Inl e \<Rightarrow> Inl e
      | Inr (prices, k') \<Rightarrow>
          (case set_column sims (nat time_horizon) i prices of
             Inl e \<Rightarrow> Inl e
           | Inr sims' \<Rightarrow> run_paths returns g time_horizon last_price is sims' k'))"

definition simulate :: "fl list \<Rightarrow> fl \<Rightarrow> int \<Rightarrow> int \<Rightarrow> rng \<Rightarrow> py_error + fl list list" where
  "simulate returns last_price time_horizon num_simulations g =
     (case np_zeros time_horizon num_simulations of
        Inl e \<Rightarrow> Inl e
      | Inr sims \<Rightarrow>
          (case run_paths returns g time_horizon last_price [0..<nat num_simulations] sims 0 of
             Inl e \<Rightarrow> Inl e
           | Inr (sims', k) \<Rightarrow> Inr sims'))"

text \<open>
  Lines 234 to 242 together: the sample, the last close
  (\<^verbatim>\<open>filtered_data['Close'].iloc[-1]\<close>, IndexError on an empty series) and the simulation.
\<close>

definition tab4 :: "real list \<Rightarrow> int \<Rightarrow> int \<Rightarrow> rng \<Rightarrow> py_error + fl list list" where
  "tab4 closes time_horizon num_simulations g =
     (case sample_returns closes of
        Inl e \<Rightarrow> Inl e
      | Inr returns \<Rightarrow>
          (case iloc closes (- 1) of
             Inl e \<Rightarrow> Inl e
           | Inr last_price \<Rightarrow> simulate returns (Fin last_price) time_horizon num_simulations g))"

text \<open>
  A price path over a sample, starting at \<open>p0\<close>: a non-empty path starts with \<open>p0\<close>, and
  every later price is the previous one times \<open>1 + r\<close> for some \<open>r\<close> of the sample.
\<close>

definition price_path :: "fl list \<Rightarrow> fl \<Rightarrow> fl list \<Rightarrow> bool" where
  "price_path returns p0 path \<longleftrightarrow>
     (path \<noteq> [] \<longrightarrow> path ! 0 = p0) \<and>
     (\<forall>t. 0 < t \<and> t < length path \<longrightarrow>
        (\<exists>r\<in>set returns. path ! t = fl_mul (path ! (t - 1)) (fl_add (Fin 1) r)))"



section \<open>Tab 5: market-cap change ranking\<close>

text \<open>
  The data provider, one call per ticker: \<^verbatim>\<open>yf.Ticker(ticker).history(period="1y")\<close>,
  of which the scan reads the length and the \<^verbatim>\<open>Close\<close> column, and
  \<^verbatim>\<open>.info.get("sharesOutstanding", None)\<close>. Either call can raise (network error,
  malformed response).
\<close>

record gateway =
  history :: "string \<Rightarrow> py_error + real list"
  shares_outstanding :: "string \<Rightarrow> py_error + real option"

text \<open>The dictionary \<^verbatim>\<open>{"Ticker": ticker, "Market Cap Change": market_cap_change}\<close>.\<close>

record ranking_entry =
  Ticker :: string
  Market_Cap_Change :: real

text \<open>
  The body of the \<^verbatim>\<open>try\<close> block for one ticker: an exception (\<open>Inl\<close>), a
  \<^verbatim>\<open>continue\<close> or a failed length test (\<open>Inr None\<close>), or an appended entry.
\<close>

definition try_body :: "gateway \<Rightarrow> nat \<Rightarrow> string \<Rightarrow> py_error + ranking_entry option" where
  "try_body gw period_days ticker =
     (case history gw ticker of
        Inl e \<Rightarrow> Inl e
      | Inr closes \<Rightarrow>
          (case shares_outstanding gw ticker of
             Inl e \<Rightarrow> Inl e
           | Inr None \<Rightarrow> Inr None
           | Inr (Some shares) \<Rightarrow>
               if closes = [] then Inr None
               else if length closes > period_days then
                 (case iloc closes (- int period_days) of
                    Inl e \<Rightarrow> Inl e
                  | Inr start_price \<Rightarrow>
                      (case iloc closes (- 1) of
                         Inl e \<Rightarrow> Inl e
                       | Inr end_price \<Rightarrow>
                           Inr (Some \<lparr>Ticker = ticker,
                             Market_Cap_Change = end_price * shares - start_price * shares\<rparr>)))
               else Inr None))"

text \<open>
  The loop \<^verbatim>\<open>for ticker in industry_tickers\<close> with its
  \<^verbatim>\<open>except Exception: continue\<close>, threading \<^verbatim>\<open>results\<close>.
\<close>

fun scan :: "gateway \<Rightarrow> nat \<Rightarrow> string list \<Rightarrow> ranking_entry list \<Rightarrow> ranking_entry list" where
  "scan gw period_days [] results = results"
| "scan gw period_days (ticker # tickers) results =
     (case try_body gw period_days ticker of
        Inl e \<Rightarrow> scan gw period_days tickers results
      | Inr None \<Rightarrow> scan gw period_days tickers results
      | Inr (Some entry) \<Rightarrow> scan gw period_days tickers (results @ [entry]))"

text \<open>
  \<^verbatim>\<open>pd.DataFrame(results).sort_values(by="Market Cap Change", ascending=False)\<close> is the
  library's sort with its default \<^verbatim>\<open>kind='quicksort'\<close>, which pandas documents as not
  stable. What the call guarantees is a rearrangement of the rows in descending order of
  the column; \<open>sort_values_desc results ordered\<close> says that \<open>ordered\<close> is such an outcome.
\<close>

definition sort_values_desc :: "ranking_entry list \<Rightarrow> ranking_entry list \<Rightarrow> bool" where
  "sort_values_desc results ordered \<longleftrightarrow>
     mset ordered = mset results \<and>
     sorted_wrt (\<lambda>a b. Market_Cap_Change a \<ge> Market_Cap_Change b) ordered"

definition head_rows :: "nat \<Rightarrow> 'a list \<Rightarrow> 'a list" where
  "head_rows n rows = take n rows"

text \<open>
  What the tab shows: the table (and bar chart) of \<^verbatim>\<open>top_companies\<close> when
  \<^verbatim>\<open>results\<close> is non-empty, the message "No data available for the selected industry
  and period." otherwise. \<open>ordered\<close> is the outcome of \<^verbatim>\<open>sort_values\<close> on \<open>results\<close>.
\<close>

datatype display = Top_Companies "ranking_entry list" | No_Data_Message

definition show_results :: "ranking_entry list \<Rightarrow> ranking_entry list \<Rightarrow> display" where
  "show_results results ordered =
     (if results \<noteq> [] then Top_Companies (head_rows 10 ordered) else No_Data_Message)"

text \<open>The lookback periods the dashboard offers (\<^verbatim>\<open>date_options\<close>).\<close>

definition date_options :: "nat list" where
  "date_options = [1, 30, 90, 180, 365]"

subsection \<open>The specification's wording, for comparison\<close>

text \<open>
  The specification's delta: the latest close minus the close \<open>N\<close> trading days before
  the most recent observation, times the shares outstanding.
\<close>

definition spec_delta :: "real list \<Rightarrow> nat \<Rightarrow> real \<Rightarrow> real" where
  "spec_delta closes n shares =
     (closes ! (length closes - 1) - closes ! (length closes - 1 - n)) * shares"


subsection \<open>Sample inputs\<close>

text \<open>
  A provider: \<open>A\<close> has no shares-outstanding value, \<open>B\<close> has five days of history,
  \<open>C\<close> and \<open>E\<close> have full data, the history request for \<open>D\<close> fails, the info of \<open>G\<close>
  is malformed; any other ticker has an empty history.
\<close>

definition sample_gateway :: gateway where
  "sample_gateway =
     \<lparr>history = (\<lambda>t.
        if t = ''A'' then Inr [10, 11, 12]
        else if t = ''B'' then Inr [5, 6, 7, 8, 9]
        else if t = ''C'' then Inr [10, 20, 30, 40, 50, 60, 70]
        else if t = ''D'' then Inl ConnectionError
        else if t = ''E'' then Inr [3, 2, 1]
        else Inr []),
      shares_outstanding = (\<lambda>t.
        if t = ''A'' then Inr None
        else if t = ''C'' then Inr (Some 2)
        else if t = ''G'' then Inl KeyError
        else Inr (Some 1))\<rparr>"

text \<open>The random source that always draws \<open>0\<close>, and the one that counts up.\<close>

definition zero_draws :: rng where
  "zero_draws k = 0"

definition counting_draws :: rng where
  "counting_draws k = k"

section \<open>Properties of the simulation\<close>

subsection \<open>Indexing, drawing and one path\<close>

lemma iloc_last: "xs \<noteq> [] \<Longrightarrow> iloc xs (- 1) = Inr (last xs)"
  by (cases xs rule: rev_cases) (simp_all add: iloc_def nth_append)

lemma iloc_from_end:
  assumes "0 < n" "n \<le> length xs"
  shows "iloc xs (- int n) = Inr (xs ! (length xs - n))"
proof -
  from assms have "nat (int (length xs) + - int n) = length xs - n" by simp
  with assms show ?thesis by (simp add: iloc_def)
qed

lemma choice_mem: "choice a u = Inr r \<Longrightarrow> r \<in> set a"
  by (auto simp: choice_def split: if_splits)

lemma choice_ok: "a \<noteq> [] \<Longrightarrow> \<exists>r. choice a u = Inr r"
  by (simp add: choice_def)

lemma price_path_snoc:
  assumes "price_path returns p0 ps" "ps \<noteq> []" "r \<in> set returns"
  shows "price_path returns p0 (ps @ [fl_mul (last ps) (fl_add (Fin 1) r)])"
proof -
  let ?q = "fl_mul (last ps) (fl_add (Fin 1) r)"
  have step: "\<exists>r'\<in>set returns. (ps @ [?q]) ! t = fl_mul ((ps @ [?q]) ! (t - 1)) (fl_add (Fin 1) r')"
    if "0 < t" "t < Suc (length ps)" for t
  proof (cases "t < length ps")
    case True
    with assms(1) that(1) show ?thesis
      by (auto simp: price_path_def nth_append)
  next
    case False
    with that have "t = length ps" by simp
    with assms(2) have "(ps @ [?q]) ! t = fl_mul ((ps @ [?q]) ! (t - 1)) (fl_add (Fin 1) r)"
      by (simp add: nth_append last_conv_nth)
    with assms(3) show ?thesis by blast
  qed
  from assms(1,2) have "(ps @ [?q]) ! 0 = p0"
    by (simp add: price_path_def nth_append)
  with step show ?thesis
    unfolding price_path_def by simp
qed

lemma extend_prices_shape:
  assumes "extend_prices returns g n k prices = Inr (path, k')"
    and "prices \<noteq> []" and "price_path returns p0 prices"
  shows "length path = length prices + n \<and> price_path returns p0 path \<and> k' = k + n"
  using assms
proof (induction n arbitrary: k prices)
  case 0
  then show ?case by simp
next
  case (Suc n)
  from Suc.prems(1) obtain r where r: "choice returns (g k) = Inr r"
    by (auto split: sum.splits)
  let ?next = "prices @ [fl_mul (last prices) (fl_add (Fin 1) r)]"
  from Suc.prems(1) r Suc.prems(2)
  have run: "extend_prices returns g n (Suc k) ?next = Inr (path, k')"
    by (simp add: iloc_last)
  have "price_path returns p0 ?next"
    by (rule price_path_snoc[OF Suc.prems(3) Suc.prems(2) choice_mem[OF r]])
  with Suc.IH[OF run] show ?case by simp
qed

lemma extend_prices_ok:
  assumes "returns \<noteq> []" "prices \<noteq> []"
  shows "\<exists>path k'. extend_prices returns g n k prices = Inr (path, k')"
  using assms(2)
proof (induction n arbitrary: k prices)
  case 0
  then show ?case by simp
next
  case (Suc n)
  from assms(1) obtain r where r: "choice returns (g k) = Inr r"
    using choice_ok by blast
  have "prices @ [fl_mul (last prices) (fl_add (Fin 1) r)] \<noteq> []" by simp
  from Suc.IH[OF this] r Suc.prems show ?case
    by (simp add: iloc_last)
qed

subsection \<open>The array of paths\<close>

lemma one_column:
  assumes "extend_prices returns g (nat (h - 1)) k [p0] = Inr (prices, k')"
    and "i < length sims"
  shows "\<exists>col. set_column sims (nat h) i prices = Inr (sims[i := col]) \<and>
           length col = nat h \<and> price_path returns p0 col"
proof -
  have start: "price_path returns p0 [p0]"
    by (simp add: price_path_def)
  from extend_prices_shape[OF assms(1) _ start]
  have len: "length prices = 1 + nat (h - 1)" and path: "price_path returns p0 prices"
    by simp_all
  show ?thesis
  proof (cases "1 \<le> h")
    case True
    with len have "length prices = nat h" by simp
    with path assms(2) show ?thesis by (intro exI[of _ prices]) (simp add: set_column_def)
  next
    case False
    with len have "length prices = 1" "nat h = 0" by simp_all
    with assms(2) show ?thesis by (intro exI[of _ "[]"]) (simp add: set_column_def price_path_def)
  qed
qed

lemma run_paths_columns:
  assumes "run_paths returns g h p0 js sims k = Inr (sims', k')"
    and "\<forall>i\<in>set js. i < length sims"
  shows "length sims' = length sims \<and>
         (\<forall>j<length sims.
            if j \<in> set js then length (sims' ! j) = nat h \<and> price_path returns p0 (sims' ! j)
            else sims' ! j = sims ! j)"
  using assms
proof (induction js arbitrary: sims k)
  case Nil
  then show ?case by simp
next
  case (Cons i js)
  from Cons.prems obtain prices k1 where
    ext: "extend_prices returns g (nat (h - 1)) k [p0] = Inr (prices, k1)"
    by (auto split: sum.splits)
  from Cons.prems(2) have i: "i < length sims" by simp
  from one_column[OF ext i] obtain col where
    col: "set_column sims (nat h) i prices = Inr (sims[i := col])"
      "length col = nat h" "price_path returns p0 col"
    by blast
  from Cons.prems(1) ext col(1)
  have rest: "run_paths returns g h p0 js (sims[i := col]) k1 = Inr (sims', k')"
    by simp
  from Cons.prems(2) have "\<forall>j\<in>set js. j < length (sims[i := col])" by simp
  from Cons.IH[OF rest this]
  have len: "length sims' = length sims"
    and cols: "\<And>j. j < length sims \<Longrightarrow>
        (if j \<in> set js then length (sims' ! j) = nat h \<and> price_path returns p0 (sims' ! j)
         else sims' ! j = sims[i := col] ! j)"
    by simp_all
  have "if j \<in> set (i # js) then length (sims' ! j) = nat h \<and> price_path returns p0 (sims' ! j)
        else sims' ! j = sims ! j" if "j < length sims" for j
    using cols[OF that] that col(2,3) by (cases "j = i") (auto split: if_splits)
  with len show ?case by simp
qed

lemma run_paths_ok:
  assumes "returns \<noteq> []"
  shows "\<forall>i\<in>set js. i < length sims \<Longrightarrow>
         \<exists>sims' k'. run_paths returns g h p0 js sims k = Inr (sims', k')"
proof (induction js arbitrary: sims k)
  case Nil
  then show ?case by simp
next
  case (Cons i js)
  from extend_prices_ok[OF assms, of "[p0]" g "nat (h - 1)" k] obtain prices k1 where
    ext: "extend_prices returns g (nat (h - 1)) k [p0] = Inr (prices, k1)"
    by auto
  from Cons.prems have i: "i < length sims" by simp
  from one_column[OF ext i] obtain col where
    col: "set_column sims (nat h) i prices = Inr (sims[i := col])"
    by blast
  from Cons.prems have "\<forall>j\<in>set js. j < length (sims[i := col])" by simp
  from Cons.IH[OF this, of k1] ext col show ?case
    by simp
qed

lemma simulate_columns:
  assumes "simulate returns p0 h m g = Inr sims"
  shows "length sims = nat m \<and>
         (\<forall>path\<in>set sims. length path = nat h \<and> price_path returns p0 path)"
proof -
  from assms obtain zs where zs: "np_zeros h m = Inr zs"
    by (auto simp: simulate_def split: sum.splits)
  then have lz: "length zs = nat m"
    by (auto simp: np_zeros_def split: if_splits)
  from assms zs obtain k' where
    run: "run_paths returns g h p0 [0..<nat m] zs 0 = Inr (sims, k')"
    by (auto simp: simulate_def split: sum.splits)
  from lz have "\<forall>i\<in>set [0..<nat m]. i < length zs" by simp
  from run_paths_columns[OF run this] lz
  have len: "length sims = nat m"
    and cols: "\<And>j. j < nat m \<Longrightarrow> length (sims ! j) = nat h \<and> price_path returns p0 (sims ! j)"
    by auto
  have "length path = nat h \<and> price_path returns p0 path" if "path \<in> set sims" for path
  proof -
    from that obtain j where "j < length sims" "sims ! j = path"
      by (auto simp: in_set_conv_nth)
    with cols[of j] len show ?thesis by simp
  qed
  with len show ?thesis by blast
qed

lemma simulate_ok:
  assumes "returns \<noteq> []" "0 \<le> h" "0 \<le> m"
  shows "\<exists>sims. simulate returns p0 h m g = Inr sims"
proof -
  from assms(2,3) obtain zs where zs: "np_zeros h m = Inr zs" and "length zs = nat m"
    by (simp add: np_zeros_def)
  then have "\<forall>i\<in>set [0..<nat m]. i < length zs" by simp
  from run_paths_ok[OF assms(1) this, of g h p0 0] obtain sims' k' where
    "run_paths returns g h p0 [0..<nat m] zs 0 = Inr (sims', k')"
    by blast
  with zs show ?thesis by (simp add: simulate_def)
qed

lemma simulate_empty_sample:
  assumes "2 \<le> h" "1 \<le> m"
  shows "simulate [] p0 h m g = Inl ValueError"
proof -
  from assms(2) have idx: "[0..<nat m] = 0 # [1..<nat m]"
    by (simp add: upt_conv_Cons)
  from assms(1) obtain n where n: "nat (h - 1) = Suc n"
    by (cases "nat (h - 1)") auto
  from assms show ?thesis
    by (simp add: simulate_def np_zeros_def idx n choice_def)
qed


text \<open>
  Claim C4. For a non-empty return sample, a horizon \<open>h \<ge> 1\<close> and a count \<open>m \<ge> 1\<close> the
  simulation returns an array of exactly \<open>m\<close> paths; each has exactly \<open>h\<close> prices, starts
  with the starting price, and every later price is the previous one times \<open>1 + r\<close> for
  some \<open>r\<close> of the sample.
\<close>

theorem simulate_paths:
  assumes "returns \<noteq> []" and "1 \<le> h" and "1 \<le> m"
  shows "\<exists>sims. simulate returns p0 h m g = Inr sims \<and> length sims = nat m \<and>
           (\<forall>path\<in>set sims. length path = nat h \<and> path ! 0 = p0 \<and>
              (\<forall>t. 1 \<le> t \<and> t < nat h \<longrightarrow>
                 (\<exists>r\<in>set returns. path ! t = fl_mul (path ! (t - 1)) (fl_add (Fin 1) r))))"
proof -
  from simulate_ok[OF assms(1), of h m p0 g] assms(2,3) obtain sims where
    sims: "simulate returns p0 h m g = Inr sims"
    by auto
  note cols = simulate_columns[OF sims]
  have "length path = nat h \<and> path ! 0 = p0 \<and>
        (\<forall>t. 1 \<le> t \<and> t < nat h \<longrightarrow>
           (\<exists>r\<in>set returns. path ! t = fl_mul (path ! (t - 1)) (fl_add (Fin 1) r)))"
    if "path \<in> set sims" for path
  proof -
    from cols that have len: "length path = nat h" and pp: "price_path returns p0 path"
      by simp_all
    from len assms(2) have "path \<noteq> []" by auto
    with pp len show ?thesis
      by (auto simp: price_path_def)
  qed
  with sims cols show ?thesis by blast
qed

text \<open>
  The specification's scenario: sample \<open>[0.01, -0.01]\<close>, start \<open>100\<close>, horizon \<open>3\<close>, two
  paths.
\<close>

theorem simulate_paths_witness:
  "[Fin (1 / 100), Fin (- 1 / 100)] \<noteq> [] \<and> (1::int) \<le> 3 \<and> (1::int) \<le> 2 \<and>
   simulate [Fin (1 / 100), Fin (- 1 / 100)] (Fin 100) 3 2 counting_draws
     = Inr [[Fin 100, Fin 101, Fin (9999 / 100)], [Fin 100, Fin 101, Fin (9999 / 100)]]"
proof -
  have run: "simulate [Fin (1 / 100), Fin (- 1 / 100)] (Fin 100) 3 2 counting_draws
     = Inr [[Fin 100, Fin 101, Fin (9999 / 100)], [Fin 100, Fin 101, Fin (9999 / 100)]]"
    by code_simp
  from simulate_paths[of "[Fin (1 / 100), Fin (- 1 / 100)]" 3 2 "Fin 100" counting_draws] run
  show ?thesis by simp
qed








section \<open>Properties of the return sample\<close>

lemma fl_sub_one_nan: "fl_sub (fin_div cur prev) (Fin 1) = NaN \<longleftrightarrow> prev = 0 \<and> cur = 0"
  by (simp add: fl_sub_def fin_div_def)

lemma sample_returns_short:
  assumes "length closes < 2"
  shows "sample_returns closes = Inr []"
proof (cases closes)
  case Nil
  then show ?thesis by (simp add: sample_returns_def dropna_def)
next
  case (Cons c cs)
  with assms have "cs = []" by simp
  with Cons show ?thesis by (simp add: sample_returns_def dropna_def)
qed

text \<open>
  Claim C5, as the code has it. For a price history of \<open>L \<ge> 2\<close> closes in which no two
  consecutive closes are both zero, the sample has exactly \<open>L - 1\<close> entries, the changes
  between consecutive closes; only the undefined first difference is dropped.
\<close>

theorem sample_returns_length:
  assumes "2 \<le> length closes"
    and "\<forall>i. Suc i < length closes \<longrightarrow> \<not> (closes ! i = 0 \<and> closes ! Suc i = 0)"
  shows "\<exists>returns. sample_returns closes = Inr returns \<and>
           length returns = length closes - 1 \<and>
           (\<forall>i<length closes - 1.
              returns ! i = fl_sub (fin_div (closes ! Suc i) (closes ! i)) (Fin 1))"
proof -
  from assms(1) obtain x xs where closes: "closes = x # xs"
    by (cases closes) auto
  let ?changes = "map (\<lambda>(prev, cur). fl_sub (fin_div cur prev) (Fin 1)) (zip (x # xs) xs)"
  have nth: "?changes ! i = fl_sub (fin_div (closes ! Suc i) (closes ! i)) (Fin 1)"
    if "i < length xs" for i
    using that closes by simp
  have "v \<noteq> NaN" if "v \<in> set ?changes" for v
  proof -
    from that obtain i where i: "i < length xs" "?changes ! i = v"
      by (auto simp: in_set_conv_nth)
    with nth[of i] assms(2) closes show ?thesis
      by (auto simp: fl_sub_one_nan)
  qed
  then have "dropna (pct_change closes) = ?changes"
    by (simp add: closes dropna_def)
  with nth closes show ?thesis
    by (simp add: sample_returns_def)
qed

text \<open>
The specification's scenario: the history \<open>[100, 102, 101, 105]\<close> gives three returns.
\<close>

theorem sample_returns_length_witness:
  "sample_returns [100, 102, 101, 105]
     = Inr [Fin (102 / 100 - 1), Fin (101 / 102 - 1), Fin (105 / 101 - 1)]"
proof -
  have hyp: "\<forall>i. Suc i < length [100, 102, 101, 105 :: real] \<longrightarrow>
      \<not> ([100, 102, 101, 105 :: real] ! i = 0 \<and> [100, 102, 101, 105 :: real] ! Suc i = 0)"
    by (auto simp: nth_Cons split: nat.splits)
  have len: "2 \<le> length [100, 102, 101, 105 :: real]" by simp
  from sample_returns_length[OF len hyp] show ?thesis
    by (simp add: sample_returns_def dropna_def fl_sub_def fin_div_def)
qed

text \<open>
  Claim C5 as stated fails: the change from a zero close to a zero close is \<open>0 / 0\<close>, that
  is NaN, and \<^verbatim>\<open>dropna\<close> removes it as well. Two zero closes give an empty sample, not
  one entry.
\<close>

theorem sample_returns_zero_closes:
  "length [0, 0 :: real] = 2 \<and> sample_returns [0, 0] = Inr []"
  by (simp add: sample_returns_def dropna_def fl_sub_def fin_div_def)

text \<open>
  Claim C7, as the code has it. For a price history of fewer than two closes the sample
  is computed without error and is empty. The tab fails afterwards: reading the last
  close of an empty history raises IndexError, and with one close the first draw from the
  empty sample raises ValueError (for \<open>h \<ge> 2\<close> and \<open>m \<ge> 1\<close>).
\<close>

theorem short_history_failure:
  assumes "length closes < 2" and "2 \<le> h" and "1 \<le> m"
  shows "sample_returns closes = Inr [] \<and>
         tab4 closes h m g = Inl (if closes = [] then IndexError else ValueError)"
proof -
  note empty = sample_returns_short[OF assms(1)]
  show ?thesis
  proof (cases "closes = []")
    case True
    with empty show ?thesis by (simp add: tab4_def iloc_def)
  next
    case False
    then have "iloc closes (- 1) = Inr (last closes)" by (rule iloc_last)
    with empty False assms(2,3) show ?thesis
      by (simp add: tab4_def simulate_empty_sample)
  qed
qed

theorem short_history_failure_witness:
  "sample_returns [100] = Inr [] \<and> tab4 [100] 30 200 zero_draws = Inl ValueError \<and>
   tab4 [] 30 200 zero_draws = Inl IndexError"
  using short_history_failure[of "[100]" 30 200 zero_draws]
    short_history_failure[of "[]" 30 200 zero_draws]
  by simp

text \<open>
  Claim C7 as stated fails: the sample of a history with one close, or with none, is the
  empty sample, not an error.
\<close>

theorem sample_returns_no_error:
  "sample_returns [100] = Inr [] \<and> sample_returns [] = Inr []"
  by (simp add: sample_returns_def dropna_def)

section \<open>Properties of the ranking scan\<close>

lemma try_body_entry:
  assumes "history gw t = Inr closes" and "shares_outstanding gw t = Inr (Some shares)"
    and "0 < n" and "n < length closes"
  shows "try_body gw n t = Inr (Some \<lparr>Ticker = t,
           Market_Cap_Change = closes ! (length closes - 1) * shares
             - closes ! (length closes - n) * shares\<rparr>)"
proof -
  from assms(3,4) have ne: "closes \<noteq> []" by auto
  from assms(3,4) have start: "iloc closes (- int n) = Inr (closes ! (length closes - n))"
    by (simp add: iloc_from_end)
  from ne have fin: "iloc closes (- 1) = Inr (closes ! (length closes - 1))"
    by (simp add: iloc_last last_conv_nth)
  from assms ne start fin show ?thesis
    by (simp add: try_body_def)
qed

lemma try_body_ticker: "try_body gw n t = Inr (Some entry) \<Longrightarrow> Ticker entry = t"
  by (auto simp: try_body_def split: sum.splits option.splits if_splits)

lemma scan_append:
  "scan gw n (pre @ post) acc = scan gw n post (scan gw n pre acc)"
  by (induction pre arbitrary: acc) (auto split: sum.splits option.splits)

lemma scan_skip:
  assumes "\<And>entry. try_body gw n t \<noteq> Inr (Some entry)"
  shows "scan gw n (pre @ t # post) acc = scan gw n (pre @ post) acc"
proof (cases "try_body gw n t")
  case (Inl e)
  then show ?thesis by (simp add: scan_append)
next
  case (Inr r)
  with assms have "r = None" by (cases r) auto
  with Inr show ?thesis by (simp add: scan_append)
qed

lemma scan_set:
  "set (scan gw n tickers acc)
     = set acc \<union> {entry. \<exists>t\<in>set tickers. try_body gw n t = Inr (Some entry)}"
proof (induction tickers arbitrary: acc)
  case Nil
  then show ?case by simp
next
  case (Cons t tickers)
  show ?case
  proof (cases "try_body gw n t")
    case (Inl e)
    with Cons.IH[of acc] show ?thesis by auto
  next
    case (Inr r)
    show ?thesis
    proof (cases r)
      case None
      with Inr Cons.IH[of acc] show ?thesis by auto
    next
      case (Some entry)
      with Inr Cons.IH[of "acc @ [entry]"] show ?thesis by auto
    qed
  qed
qed

lemma scan_entries:
  assumes "entry \<in> set (scan gw n tickers acc)"
  shows "entry \<in> set acc \<or> (\<exists>t\<in>set tickers. try_body gw n t = Inr (Some entry))"
  using assms by (simp add: scan_set)

lemma scan_no_entry:
  assumes "\<And>entry. try_body gw n t \<noteq> Inr (Some entry)"
  shows "t \<notin> Ticker ` set (scan gw n tickers [])"
proof
  assume "t \<in> Ticker ` set (scan gw n tickers [])"
  then obtain entry where e: "entry \<in> set (scan gw n tickers [])" "Ticker entry = t"
    by auto
  from scan_entries[OF e(1)] obtain s where "try_body gw n s = Inr (Some entry)"
    by auto
  with e(2) assms try_body_ticker show False by metis
qed

text \<open>
  Claim C1, against the code. For a lookback of \<open>n \<ge> 1\<close> days and a history of more than
  \<open>n\<close> closes the scan appends the entry whose change is the specification's delta for a
  lookback of \<open>n - 1\<close> days: \<^verbatim>\<open>iloc[-n]\<close> is the close \<open>n - 1\<close> observations before the
  latest one, not \<open>n\<close>.
\<close>

theorem market_cap_change_baseline:
  assumes "history gw t = Inr closes" and "shares_outstanding gw t = Inr (Some shares)"
    and "0 < n" and "n < length closes"
  shows "try_body gw n t = Inr (Some \<lparr>Ticker = t,
           Market_Cap_Change = spec_delta closes (n - 1) shares\<rparr>)"
proof -
  from assms(3,4) have "length closes - 1 - (n - 1) = length closes - n" by simp
  then show ?thesis
    by (simp add: try_body_entry[OF assms] spec_delta_def algebra_simps)
qed

text \<open>
  The offered lookback of one day: the baseline is the latest close itself and the change
  is \<open>0\<close>, where the specification's delta over one day is \<open>(70 - 60) * 2 = 20\<close>.
\<close>

theorem market_cap_change_one_day:
  "1 \<in> set date_options \<and>
   try_body sample_gateway 1 ''C'' = Inr (Some \<lparr>Ticker = ''C'', Market_Cap_Change = 0\<rparr>) \<and>
   spec_delta [10, 20, 30, 40, 50, 60, 70] 1 2 = 20"
proof -
  have "history sample_gateway ''C'' = Inr [10, 20, 30, 40, 50, 60, 70]"
    and "shares_outstanding sample_gateway ''C'' = Inr (Some 2)"
    by (simp_all add: sample_gateway_def)
  from market_cap_change_baseline[OF this, of 1] show ?thesis
    by (simp add: spec_delta_def date_options_def)
qed

text \<open>
  Claim C6. A ticker whose shares-outstanding value is missing, whose history is empty,
  or whose history has fewer than \<open>n + 1\<close> closes yields no entry: when both provider
  calls return, the body ends without an exception and without an entry; the scan of a
  universe containing the ticker equals the scan without it; and the results hold no
  entry for the ticker (in particular none with change \<open>0\<close>).
\<close>

theorem scan_skips_unusable:
  assumes "shares_outstanding gw t = Inr None \<or> history gw t = Inr [] \<or>
           (\<exists>closes. history gw t = Inr closes \<and> length closes < n + 1)"
  shows "(\<forall>entry. try_body gw n t \<noteq> Inr (Some entry)) \<and>
         (\<forall>closes shares. history gw t = Inr closes \<and> shares_outstanding gw t = Inr shares
            \<longrightarrow> try_body gw n t = Inr None) \<and>
         scan gw n (pre @ t # post) acc = scan gw n (pre @ post) acc \<and>
         t \<notin> Ticker ` set (scan gw n tickers [])"
proof -
  from assms have returned: "try_body gw n t = Inr None"
    if "history gw t = Inr closes" "shares_outstanding gw t = Inr shares" for closes shares
    using that by (cases shares) (auto simp: try_body_def)
  have none: "try_body gw n t \<noteq> Inr (Some entry)" for entry
  proof (cases "history gw t")
    case (Inl e)
    then show ?thesis by (simp add: try_body_def)
  next
    case closes: (Inr closes)
    show ?thesis
    proof (cases "shares_outstanding gw t")
      case (Inl e)
      with closes show ?thesis by (simp add: try_body_def)
    next
      case (Inr shares)
      with closes returned show ?thesis by simp
    qed
  qed
  from none returned scan_skip[of gw n t pre post acc, OF none]
    scan_no_entry[of gw n t tickers, OF none]
  show ?thesis by blast
qed

text \<open>
  The specification's scenario with a lookback of five days: \<open>A\<close> has no shares
  outstanding, \<open>B\<close> has five closes, \<open>F\<close> has no history; only \<open>C\<close> is ranked.
\<close>

theorem scan_skips_unusable_witness:
  "scan sample_gateway 5 [''A'', ''B'', ''F'', ''C''] []
     = [\<lparr>Ticker = ''C'', Market_Cap_Change = 80\<rparr>] \<and>
   try_body sample_gateway 5 ''A'' = Inr None \<and>
   try_body sample_gateway 5 ''B'' = Inr None \<and>
   try_body sample_gateway 5 ''F'' = Inr None"
proof -
  have a: "history sample_gateway ''A'' = Inr [10, 11, 12]"
    "shares_outstanding sample_gateway ''A'' = Inr None"
    and b: "history sample_gateway ''B'' = Inr [5, 6, 7, 8, 9]"
    "shares_outstanding sample_gateway ''B'' = Inr (Some 1)"
    and c: "history sample_gateway ''C'' = Inr [10, 20, 30, 40, 50, 60, 70]"
    "shares_outstanding sample_gateway ''C'' = Inr (Some 2)"
    and f: "history sample_gateway ''F'' = Inr []"
    "shares_outstanding sample_gateway ''F'' = Inr (Some 1)"
    by (simp_all add: sample_gateway_def)
  have c5: "try_body sample_gateway 5 ''C'' = Inr (Some \<lparr>Ticker = ''C'', Market_Cap_Change = 80\<rparr>)"
    using try_body_entry[OF c, of 5] by simp
  from scan_skips_unusable[of sample_gateway "''A''" 5 "[]" "[''B'', ''F'', ''C'']" "[]" "[]"]
    scan_skips_unusable[of sample_gateway "''B''" 5 "[]" "[''F'', ''C'']" "[]" "[]"]
    scan_skips_unusable[of sample_gateway "''F''" 5 "[]" "[''C'']" "[]" "[]"]
    a b f c5
  show ?thesis by simp
qed

text \<open>
  Claim C8. When a provider call for a ticker raises, or anything else in the body does,
  the exception is caught: the scan of a universe containing the ticker equals the scan
  without it, and the results hold no entry for the ticker. The scan itself is a total
  function of the universe: it always returns its list of results.
\<close>

theorem scan_survives_failure:
  assumes "history gw t = Inl e \<or> shares_outstanding gw t = Inl e \<or> try_body gw n t = Inl e"
  shows "(\<exists>e'. try_body gw n t = Inl e') \<and>
         scan gw n (pre @ t # post) acc = scan gw n (pre @ post) acc \<and>
         t \<notin> Ticker ` set (scan gw n tickers [])"
proof -
  from assms obtain e' where fail: "try_body gw n t = Inl e'"
    by (auto simp: try_body_def split: sum.splits)
  then have none: "try_body gw n t \<noteq> Inr (Some entry)" for entry by simp
  have "scan gw n (pre @ t # post) acc = scan gw n (pre @ post) acc"
    using fail by (simp add: scan_append)
  with fail scan_no_entry[of gw n t tickers, OF none] show ?thesis by simp
qed

theorem scan_survives_failure_witness:
  "history sample_gateway ''D'' = Inl ConnectionError \<and>
   try_body sample_gateway 2 ''D'' = Inl ConnectionError \<and>
   try_body sample_gateway 2 ''G'' = Inl KeyError \<and>
   scan sample_gateway 2 [''C'', ''D'', ''G'', ''E''] [] = scan sample_gateway 2 [''C'', ''E''] [] \<and>
   scan sample_gateway 2 [''C'', ''E''] []
     = [\<lparr>Ticker = ''C'', Market_Cap_Change = 20\<rparr>, \<lparr>Ticker = ''E'', Market_Cap_Change = - 1\<rparr>]"
proof -
  have d: "history sample_gateway ''D'' = Inl ConnectionError"
    and g: "shares_outstanding sample_gateway ''G'' = Inl KeyError"
    "history sample_gateway ''G'' = Inr []"
    by (simp_all add: sample_gateway_def)
  have c: "history sample_gateway ''C'' = Inr [10, 20, 30, 40, 50, 60, 70]"
    "shares_outstanding sample_gateway ''C'' = Inr (Some 2)"
    and e: "history sample_gateway ''E'' = Inr [3, 2, 1]"
    "shares_outstanding sample_gateway ''E'' = Inr (Some 1)"
    by (simp_all add: sample_gateway_def)
  have run: "try_body sample_gateway 2 ''C'' = Inr (Some \<lparr>Ticker = ''C'', Market_Cap_Change = 20\<rparr>)"
    "try_body sample_gateway 2 ''E'' = Inr (Some \<lparr>Ticker = ''E'', Market_Cap_Change = - 1\<rparr>)"
    using try_body_entry[OF c, of 2] try_body_entry[OF e, of 2] by simp_all
  have fails: "try_body sample_gateway 2 ''D'' = Inl ConnectionError"
    "try_body sample_gateway 2 ''G'' = Inl KeyError"
    using d g by (simp_all add: try_body_def)
  from scan_survives_failure[of sample_gateway "''D''" ConnectionError 2 "[''C'']"
      "[''G'', ''E'']" "[]" "[]"]
    scan_survives_failure[of sample_gateway "''G''" KeyError 2 "[''C'']" "[''E'']" "[]" "[]"]
    d g fails run
  show ?thesis by simp
qed

section \<open>Properties of the ranking table\<close>









text \<open>
  Claim C9. With no results the tab shows the no-data message, never a table; with results
  it shows a table that is not empty. So the message is shown exactly when there are no
  results, and it is distinct from every table.
\<close>

theorem no_data_signal:
  "show_results [] ordered = No_Data_Message \<and>
   (sort_values_desc results ordered \<longrightarrow>
      (show_results results ordered = No_Data_Message \<longleftrightarrow> results = []) \<and>
      show_results results ordered \<noteq> Top_Companies [])"
proof -
  have "head_rows 10 ordered \<noteq> []"
    if "sort_values_desc results ordered" "results \<noteq> []"
  proof -
    from that have "ordered \<noteq> []"
      by (auto simp: sort_values_desc_def)
    then show ?thesis by (simp add: head_rows_def)
  qed
  then show ?thesis
    by (auto simp: show_results_def)
qed

theorem no_data_signal_witness:
  "scan sample_gateway 180 [''A'', ''B''] [] = [] \<and>
   show_results (scan sample_gateway 180 [''A'', ''B''] []) [] = No_Data_Message \<and>
   sort_values_desc [\<lparr>Ticker = ''C'', Market_Cap_Change = 80\<rparr>]
     [\<lparr>Ticker = ''C'', Market_Cap_Change = 80\<rparr>] \<and>
   show_results [\<lparr>Ticker = ''C'', Market_Cap_Change = 80\<rparr>]
     [\<lparr>Ticker = ''C'', Market_Cap_Change = 80\<rparr>]
     = Top_Companies [\<lparr>Ticker = ''C'', Market_Cap_Change = 80\<rparr>]"
proof -
  have empty: "scan sample_gateway 180 [''A'', ''B''] [] = []"
    by (simp add: try_body_def sample_gateway_def)
  have ok: "sort_values_desc [\<lparr>Ticker = ''C'', Market_Cap_Change = 80\<rparr>]
     [\<lparr>Ticker = ''C'', Market_Cap_Change = 80\<rparr>]"
    by (simp add: sort_values_desc_def)
  from no_data_signal[of "[\<lparr>Ticker = ''C'', Market_Cap_Change = 80\<rparr>]"
      "[\<lparr>Ticker = ''C'', Market_Cap_Change = 80\<rparr>]"] empty ok
  show ?thesis by (simp add: show_results_def head_rows_def)
qed

end
